theory Spec2Isabelle
  imports Complex_Main
begin

section \<open>Numbers\<close>

text \<open>
  The calculator works on TypeScript values of type \<open>number\<close>, IEEE-754 binary64
  doubles. A finite double is modelled by the real number it denotes, and every
  arithmetic operation of the source is the exact operation followed by rounding to the
  nearest double, ties to the even significand (\<open>fl\<close>). Negative zero is the real 0.
  The modelled values are the finite ones: \<open>NaN\<close> and \<open>Infinity\<close> are not values of the
  model, and \<open>fl\<close> rounds with an unbounded exponent. A theorem that says which values
  a run emits therefore carries the hypothesis \<open>finite_run\<close>: the amounts are doubles and
  no operation of the run gives a result beyond the largest finite double.
\<close>

text \<open>
  The binary exponent of a positive real: \<open>binade x = e\<close> with \<open>2^e \<le> x < 2^(e+1)\<close>.
\<close>

function binade :: "real \<Rightarrow> int" where
  "binade x =
     (if 2 \<le> x then binade (x / 2) + 1
      else if 0 < x \<and> x < 1 then binade (x * 2) - 1
      else 0)"
  by pat_completeness auto
termination
proof (relation "measure (\<lambda>x. if 1 \<le> x then nat \<lfloor>log 2 x\<rfloor> else nat \<lceil>- log 2 x\<rceil>)")
  show "wf (measure (\<lambda>x::real. if 1 \<le> x then nat \<lfloor>log 2 x\<rfloor> else nat \<lceil>- log 2 x\<rceil>))"
    by simp
next
  fix x :: real
  assume x: "2 \<le> x"
  then have "log 2 (x / 2) = log 2 x - 1"
    by (simp add: log_divide)
  moreover have "1 \<le> log 2 x"
    using x by (simp add: le_log_iff)
  then have "1 \<le> \<lfloor>log 2 x\<rfloor>" by linarith
  ultimately show "(x / 2, x) \<in>
      measure (\<lambda>x. if 1 \<le> x then nat \<lfloor>log 2 x\<rfloor> else nat \<lceil>- log 2 x\<rceil>)"
    using x by simp
next
  fix x :: real
  assume "\<not> 2 \<le> x" and x: "0 < x \<and> x < 1"
  have neg: "log 2 x < 0" using x by simp
  then have pos: "1 \<le> \<lceil>- log 2 x\<rceil>" by linarith
  have l2: "log 2 (x * 2) = log 2 x + 1"
    using x by (simp add: log_mult)
  show "(x * 2, x) \<in>
      measure (\<lambda>x. if 1 \<le> x then nat \<lfloor>log 2 x\<rfloor> else nat \<lceil>- log 2 x\<rceil>)"
  proof (cases "1 \<le> x * 2")
    case True
    have "log 2 (x * 2) < 1" using l2 neg by linarith
    moreover have "0 \<le> log 2 (x * 2)" using True by simp
    ultimately have "\<lfloor>log 2 (x * 2)\<rfloor> = 0" by linarith
    with True x pos show ?thesis by simp
  next
    case False
    have "\<lceil>- log 2 (x * 2)\<rceil> = \<lceil>- log 2 x\<rceil> - 1"
      unfolding l2 by linarith
    with False x pos show ?thesis by simp
  qed
qed

declare binade.simps [simp del]

text \<open>Rounding a real to the nearest integer, a tie to the even one.\<close>

definition rne :: "real \<Rightarrow> int" where
  "rne r =
     (let f = \<lfloor>r\<rfloor>; d = r - real_of_int f
      in if d < 1 / 2 then f
         else if 1 / 2 < d then f + 1
         else if even f then f else f + 1)"

text \<open>
  A double has a 53-bit significand and a binary exponent of at least -1022; below
  \<open>2^-1022\<close> the subnormal doubles keep the spacing \<open>2^-1074\<close>. \<open>ulp x\<close> is the spacing
  of the doubles around \<open>x\<close>, and \<open>fl x\<close> the multiple of it nearest to \<open>x\<close>.
\<close>

definition exponent :: "real \<Rightarrow> int" where
  "exponent x = (if x = 0 then - 1022 else max (binade \<bar>x\<bar>) (- 1022))"

definition ulp :: "real \<Rightarrow> real" where
  "ulp x = 2 powi (exponent x - 52)"

definition fl :: "real \<Rightarrow> real" where
  "fl x = real_of_int (rne (x / ulp x)) * ulp x"

text \<open>The four arithmetic operators of the source on doubles.\<close>

definition dadd :: "real \<Rightarrow> real \<Rightarrow> real" where
  "dadd a b = fl (a + b)"

definition dsub :: "real \<Rightarrow> real \<Rightarrow> real" where
  "dsub a b = fl (a - b)"

definition dmul :: "real \<Rightarrow> real \<Rightarrow> real" where
  "dmul a b = fl (a * b)"

definition ddiv :: "real \<Rightarrow> real \<Rightarrow> real" where
  "ddiv a b = fl (a / b)"

text \<open>
  The largest finite double. An operation overflows to \<open>Infinity\<close> exactly when its
  result, rounded with an unbounded exponent, is larger in magnitude.
\<close>

definition max_double :: real where
  "max_double = (2 ^ 53 - 1) * 2 ^ 971"

definition in_range :: "real \<Rightarrow> bool" where
  "in_range x \<longleftrightarrow> \<bar>x\<bar> \<le> max_double"

definition is_double :: "real \<Rightarrow> bool" where
  "is_double x \<longleftrightarrow> fl x = x \<and> in_range x"

text \<open>
  \<open>Number(x.toFixed(2))\<close> on a finite double \<open>x\<close>. \<open>toFixed\<close> takes the sign off, and for
  a magnitude below \<open>10^21\<close> picks the integer \<open>n\<close> for which \<open>n / 100\<close> is closest to the
  exact value of \<open>x\<close>, the larger \<open>n\<close> on a tie, and prints it with two decimals;
  \<open>Number\<close> reads the decimal back as the nearest double. From \<open>10^21\<close> on \<open>toFixed\<close>
  prints the number as \<open>String\<close> does, which \<open>Number\<close> reads back unchanged.
\<close>

definition toFixed2 :: "real \<Rightarrow> real" where
  "toFixed2 x =
     (if 10 ^ 21 \<le> \<bar>x\<bar> then x
      else if x < 0 then fl (- (real_of_int \<lfloor>(- x) * 100 + 1 / 2\<rfloor> / 100))
      else fl (real_of_int \<lfloor>x * 100 + 1 / 2\<rfloor> / 100))"

section \<open>The simulation engine\<close>

record CalculationParams =
  startingAmount :: real
  rateOfReturn :: real
  incrementalAddition :: real
  incrementalFrequency :: string
  years :: real

record CalculationResult =
  year :: real
  totalValue :: real
  invested :: real
  gained :: real

text \<open>Lines 38-40: two string comparisons, everything else falls through to 1.\<close>

definition frequencyMultiplier :: "string \<Rightarrow> real" where
  "frequencyMultiplier f =
     (if f = ''monthly'' then 12 else if f = ''quarterly'' then 4 else 1)"

text \<open>
  Lines 43-45, the update of the two running variables \<open>(currentValue, totalInvested)\<close>
  in one pass of the loop body; \<open>m\<close> is the frequency multiplier. Each operator of the
  three statements is one double operation: the division, the addition of 1 and the
  product of line 43, the product and the sum of line 44, the product and the sum of
  line 45.
\<close>

definition year_step :: "CalculationParams \<Rightarrow> real \<Rightarrow> real \<times> real \<Rightarrow> real \<times> real" where
  "year_step p m st =
     (let currentValue = dmul (fst st) (dadd 1 (ddiv (rateOfReturn p) 100));
          currentValue = dadd currentValue (dmul (incrementalAddition p) m);
          totalInvested = dadd (snd st) (dmul (incrementalAddition p) m)
      in (currentValue, totalInvested))"

text \<open>
  Lines 47-52, the record pushed for loop counter \<open>y\<close> from the updated variables; the
  subtraction of line 51 is a double operation on the unrounded variables.
\<close>

definition emit_result :: "real \<Rightarrow> real \<times> real \<Rightarrow> CalculationResult" where
  "emit_result y st =
     \<lparr>year = y,
      totalValue = toFixed2 (fst st),
      invested = toFixed2 (snd st),
      gained = toFixed2 (dsub (fst st) (snd st))\<rparr>"

text \<open>
  Lines 42-53, \<open>for (let year = 1; year <= years; year++)\<close>: the counter \<open>y\<close>, the
  running variables \<open>st\<close> and the array \<open>results\<close> are threaded through the recursion.
  The counter is a whole number, and whole numbers are counted exactly in doubles up
  to \<open>2^53\<close>, so its increment is written without rounding.
\<close>

function year_loop ::
  "CalculationParams \<Rightarrow> real \<Rightarrow> real \<Rightarrow> real \<times> real \<Rightarrow> CalculationResult list
     \<Rightarrow> CalculationResult list" where
  "year_loop p m y st results =
     (if y \<le> years p
      then year_loop p m (y + 1) (year_step p m st)
             (results @ [emit_result y (year_step p m st)])
      else results)"
  by pat_completeness auto
termination
proof (relation "measure (\<lambda>(p, m, y, st, results). nat \<lceil>years p + 1 - y\<rceil>)")
  show "wf (measure (\<lambda>(p, m, y, st, results). nat \<lceil>years p + 1 - y\<rceil>))"
    by simp
next
  fix p :: CalculationParams and m y :: real and st :: "real \<times> real"
    and results :: "CalculationResult list"
  assume le: "y \<le> years p"
  have "\<lceil>years p + 1 - (y + 1)\<rceil> = \<lceil>years p + 1 - y\<rceil> - 1"
    by (simp add: ceiling_diff_one [symmetric])
  moreover have "0 < \<lceil>years p + 1 - y\<rceil>"
    using le by (simp add: ceiling_less_iff)
  ultimately show
    "((p, m, y + 1, year_step p m st, results @ [emit_result y (year_step p m st)]),
      (p, m, y, st, results))
       \<in> measure (\<lambda>(p, m, y, st, results). nat \<lceil>years p + 1 - y\<rceil>)"
    by simp
qed

declare year_loop.simps [simp del]

definition calculateCompoundInterest :: "CalculationParams \<Rightarrow> CalculationResult list" where
  "calculateCompoundInterest p =
     year_loop p (frequencyMultiplier (incrementalFrequency p)) 1
       (startingAmount p, startingAmount p) []"

text \<open>
  The values of \<open>(currentValue, totalInvested)\<close> after \<open>n\<close> passes of the loop body,
  started from \<open>st\<close>; \<open>running_state\<close> starts them as lines 35-36 do.
\<close>

definition state_after ::
  "CalculationParams \<Rightarrow> real \<Rightarrow> real \<times> real \<Rightarrow> nat \<Rightarrow> real \<times> real" where
  "state_after p m st n = (year_step p m ^^ n) st"

definition running_state :: "CalculationParams \<Rightarrow> nat \<Rightarrow> real \<times> real" where
  "running_state p n =
     state_after p (frequencyMultiplier (incrementalFrequency p))
       (startingAmount p, startingAmount p) n"

text \<open>The number of hundredths that \<open>toFixed(2)\<close> settles on.\<close>

definition cents :: "real \<Rightarrow> int" where
  "cents x = (if x < 0 then - \<lfloor>(- x) * 100 + 1 / 2\<rfloor> else \<lfloor>x * 100 + 1 / 2\<rfloor>)"

subsection \<open>The specification's view of a scenario\<close>

text \<open>
  The specification's invariant of ScenarioParameters (its section 3): a non-negative
  starting amount, one of the three frequencies, and a positive whole number of years.
\<close>

definition valid_params :: "CalculationParams \<Rightarrow> bool" where
  "valid_params p \<longleftrightarrow>
     0 \<le> startingAmount p
     \<and> incrementalFrequency p \<in> set [''monthly'', ''quarterly'', ''yearly'']
     \<and> 1 \<le> years p
     \<and> years p = real_of_int \<lfloor>years p\<rfloor>"

text \<open>
  The specification's frequency enumeration with its periods per year, and the string
  each value is written as in the parameter record.
\<close>

datatype Frequency = Monthly | Quarterly | Yearly

fun multiplier :: "Frequency \<Rightarrow> real" where
  "multiplier Monthly = 12"
| "multiplier Quarterly = 4"
| "multiplier Yearly = 1"

fun frequency_tag :: "Frequency \<Rightarrow> string" where
  "frequency_tag Monthly = ''monthly''"
| "frequency_tag Quarterly = ''quarterly''"
| "frequency_tag Yearly = ''yearly''"

text \<open>
  The specification's algorithm (section 4.1, steps 3a-3c) as recurrences over the year,
  written without reference to the loop: the balance is multiplied by
  \<open>1 + r / 100\<close> first and then receives the year's contribution \<open>c\<close>; the invested total
  only receives the contribution. Every operation is a double operation, and nothing
  is rounded to two decimals on the way from one year to the next.
\<close>

primrec spec_balance :: "real \<Rightarrow> real \<Rightarrow> real \<Rightarrow> nat \<Rightarrow> real" where
  "spec_balance s r c 0 = s"
| "spec_balance s r c (Suc n) = dadd (dmul (spec_balance s r c n) (dadd 1 (ddiv r 100))) c"

primrec spec_invested :: "real \<Rightarrow> real \<Rightarrow> nat \<Rightarrow> real" where
  "spec_invested s c 0 = s"
| "spec_invested s c (Suc n) = dadd (spec_invested s c n) c"

text \<open>
  The same recurrences for a parameter record, with the contribution the code computes:
  the unrounded balance and the unrounded invested total after \<open>n\<close> years.
\<close>

definition contribution :: "CalculationParams \<Rightarrow> real" where
  "contribution p =
     dmul (incrementalAddition p) (frequencyMultiplier (incrementalFrequency p))"

definition unrounded_balance :: "CalculationParams \<Rightarrow> nat \<Rightarrow> real" where
  "unrounded_balance p n =
     spec_balance (startingAmount p) (rateOfReturn p) (contribution p) n"

definition unrounded_invested :: "CalculationParams \<Rightarrow> nat \<Rightarrow> real" where
  "unrounded_invested p n = spec_invested (startingAmount p) (contribution p) n"

text \<open>
  The runs whose values the model describes: the three amounts are finite doubles, and
  no operation of the first \<open>n\<close> years gives a result beyond the largest finite double.
\<close>

fun finite_run :: "CalculationParams \<Rightarrow> nat \<Rightarrow> bool" where
  "finite_run p 0 \<longleftrightarrow>
     is_double (startingAmount p) \<and> is_double (rateOfReturn p)
     \<and> is_double (incrementalAddition p)
     \<and> in_range (ddiv (rateOfReturn p) 100)
     \<and> in_range (dadd 1 (ddiv (rateOfReturn p) 100))
     \<and> in_range (contribution p)"
| "finite_run p (Suc n) \<longleftrightarrow>
     finite_run p n
     \<and> in_range (dmul (unrounded_balance p n) (dadd 1 (ddiv (rateOfReturn p) 100)))
     \<and> in_range (unrounded_balance p (Suc n))
     \<and> in_range (unrounded_invested p (Suc n))
     \<and> in_range (dsub (unrounded_balance p (Suc n)) (unrounded_invested p (Suc n)))"

section \<open>The comparison coordinator\<close>

text \<open>
  The component state of lines 59-72, one field per \<open>useState\<close>. A \<open>null\<close> is \<open>None\<close>.
\<close>

record Calculator =
  params1 :: CalculationParams
  params2 :: "CalculationParams option"
  results1 :: "CalculationResult list"
  results2 :: "CalculationResult list"
  selectedPoint :: "CalculationResult option"
  isComparing :: bool

definition initial_state :: Calculator where
  "initial_state =
     \<lparr>params1 =
        \<lparr>startingAmount = 100, rateOfReturn = 10, incrementalAddition = 505.75,
         incrementalFrequency = ''monthly'', years = 30\<rparr>,
      params2 = None, results1 = [], results2 = [], selectedPoint = None,
      isComparing = False\<rparr>"

text \<open>
  Lines 74-79, run by the effect of lines 97-99 after every change of a parameter set or
  of the comparison flag.
\<close>

definition calculateResults :: "Calculator \<Rightarrow> Calculator" where
  "calculateResults s =
     (let s1 = s\<lparr>results1 := calculateCompoundInterest (params1 s)\<rparr>
      in if isComparing s
         then (case params2 s of
                 Some p2 \<Rightarrow> s1\<lparr>results2 := calculateCompoundInterest p2\<rparr>
               | None \<Rightarrow> s1)
         else s1)"

text \<open>Lines 81-84.\<close>

definition handleCompare :: "Calculator \<Rightarrow> Calculator" where
  "handleCompare s = s\<lparr>isComparing := True, params2 := Some (params1 s)\<rparr>"

text \<open>Lines 86-90: three setters, none of them for \<open>selectedPoint\<close>.\<close>

definition handleRemoveComparison :: "Calculator \<Rightarrow> Calculator" where
  "handleRemoveComparison s = s\<lparr>isComparing := False, params2 := None, results2 := []\<rparr>"

text \<open>Lines 93-95, the only place that writes \<open>selectedPoint\<close>.\<close>

definition handlePointClick :: "Calculator \<Rightarrow> CalculationResult \<Rightarrow> Calculator" where
  "handlePointClick s payload = s\<lparr>selectedPoint := Some payload\<rparr>"

text \<open>
  Lines 101-108. \<open>results[i]?.totalValue\<close> is \<open>undefined\<close> (here \<open>None\<close>) past the end of
  the array, and \<open>v || null\<close> turns every falsy \<open>v\<close> into \<open>null\<close>: \<open>undefined\<close> and also
  the number 0. The entry's field \<open>year\<close> is called \<open>chart_year\<close> here, since
  \<open>year\<close> is the field of \<open>CalculationResult\<close>.
\<close>

record ChartPoint =
  chart_year :: real
  totalValue1 :: "real option"
  totalValue2 :: "real option"

definition optional_totalValue :: "CalculationResult list \<Rightarrow> nat \<Rightarrow> real option" where
  "optional_totalValue results i =
     (if i < length results then Some (totalValue (results ! i)) else None)"

definition or_null :: "real option \<Rightarrow> real option" where
  "or_null v = (case v of None \<Rightarrow> None | Some x \<Rightarrow> if x = 0 then None else Some x)"

definition chartData :: "Calculator \<Rightarrow> ChartPoint list" where
  "chartData s =
     (let maxYears = max (length (results1 s)) (length (results2 s))
      in map (\<lambda>i. \<lparr>chart_year = real i + 1,
                    totalValue1 = or_null (optional_totalValue (results1 s) i),
                    totalValue2 = or_null (optional_totalValue (results2 s) i)\<rparr>)
           [0..<maxYears])"

text \<open>
  Lines 119-122. \<open>params2?.years || 0\<close> is 0 when there is no second scenario or its
  years are 0; \<open>Array.from\<close> with a length that is not positive gives the empty array.
\<close>

definition getXAxisTicks :: "Calculator \<Rightarrow> real list" where
  "getXAxisTicks s =
     (let maxYears =
            max (years (params1 s))
              (case params2 s of
                 None \<Rightarrow> 0
               | Some p2 \<Rightarrow> if years p2 = 0 then 0 else years p2)
      in map (\<lambda>i. real i * 5) [0..<nat (\<lfloor>maxYears / 5\<rfloor> + 1)])"

text \<open>
  The specification's \<open>maxYears\<close> (section 4.2): the larger of A's years and B's years,
  with 0 for an absent B.
\<close>

definition spec_maxYears :: "Calculator \<Rightarrow> real" where
  "spec_maxYears s =
     max (years (params1 s)) (case params2 s of None \<Rightarrow> 0 | Some p2 \<Rightarrow> years p2)"

section \<open>Concrete scenarios\<close>

text \<open>
  A decimal literal that is not itself a double stands for the double nearest to it, as
  \<open>parseFloat\<close> and the TypeScript compiler read it: \<open>fl 10.333\<close>.
\<close>

definition spec_example :: CalculationParams where
  "spec_example =
     \<lparr>startingAmount = 100, rateOfReturn = 10, incrementalAddition = 505.75,
      incrementalFrequency = ''monthly'', years = 1\<rparr>"

definition carry_example :: CalculationParams where
  "carry_example =
     \<lparr>startingAmount = 1000, rateOfReturn = 7, incrementalAddition = 0,
      incrementalFrequency = ''yearly'', years = 4\<rparr>"

definition rounding_example :: CalculationParams where
  "rounding_example =
     \<lparr>startingAmount = 100, rateOfReturn = 5, incrementalAddition = fl 10.333,
      incrementalFrequency = ''yearly'', years = 2\<rparr>"

definition half_cent_example :: CalculationParams where
  "half_cent_example =
     \<lparr>startingAmount = 150, rateOfReturn = 3, incrementalAddition = 0,
      incrementalFrequency = ''yearly'', years = 2\<rparr>"

definition withdrawal_example :: CalculationParams where
  "withdrawal_example =
     \<lparr>startingAmount = 100, rateOfReturn = 10, incrementalAddition = - 10,
      incrementalFrequency = ''yearly'', years = 2\<rparr>"

definition zero_example :: CalculationParams where
  "zero_example =
     \<lparr>startingAmount = 0, rateOfReturn = 10, incrementalAddition = 0,
      incrementalFrequency = ''yearly'', years = 1\<rparr>"

definition clicked_point :: CalculationResult where
  "clicked_point = \<lparr>year = 1, totalValue = 6179, invested = 6169, gained = 10\<rparr>"

section \<open>Properties of double rounding\<close>

lemma binade_bounds:
  "0 < x \<Longrightarrow> 2 powi binade x \<le> x \<and> x < 2 powi (binade x + 1)"
proof (induction x rule: binade.induct)
  case (1 x)
  show ?case
  proof (cases "2 \<le> x")
    case True
    then have b: "binade x = binade (x / 2) + 1"
      by (simp add: binade.simps [of x])
    have "2 powi binade (x / 2) \<le> x / 2 \<and> x / 2 < 2 powi (binade (x / 2) + 1)"
      using "1.IH"(1) [OF True] "1.prems" by simp
    then show ?thesis
      unfolding b by (simp add: power_int_add)
  next
    case False
    show ?thesis
    proof (cases "x < 1")
      case True
      then have b: "binade x = binade (x * 2) - 1"
        using False "1.prems" by (simp add: binade.simps [of x])
      have "2 powi binade (x * 2) \<le> x * 2 \<and> x * 2 < 2 powi (binade (x * 2) + 1)"
        using "1.IH"(2) [OF False] True "1.prems" by simp
      then show ?thesis
        unfolding b by (simp add: power_int_add power_int_diff)
    next
      case nl: False
      then have "binade x = 0"
        using False by (simp add: binade.simps [of x])
      with False nl show ?thesis by simp
    qed
  qed
qed

lemma binade_unique:
  assumes "2 powi e \<le> x" and "x < 2 powi (e + 1)"
  shows "binade x = e"
proof -
  have pos: "0 < x"
    using assms(1) zero_less_power_int [of "2::real" e] by linarith
  note b = binade_bounds [OF pos]
  have "\<not> e + 1 \<le> binade x"
  proof
    assume "e + 1 \<le> binade x"
    then have "(2::real) powi (e + 1) \<le> 2 powi binade x"
      by (intro power_int_increasing) simp_all
    with b assms show False by linarith
  qed
  moreover have "\<not> binade x + 1 \<le> e"
  proof
    assume "binade x + 1 \<le> e"
    then have "(2::real) powi (binade x + 1) \<le> 2 powi e"
      by (intro power_int_increasing) simp_all
    with b assms show False by linarith
  qed
  ultimately show ?thesis by linarith
qed

lemma binade_below:
  assumes "0 < x" and "x < 2 powi e"
  shows "binade x < e"
proof (rule ccontr)
  assume "\<not> binade x < e"
  then have "(2::real) powi e \<le> 2 powi binade x"
    by (intro power_int_increasing) simp_all
  with binade_bounds [OF assms(1)] assms(2) show False by linarith
qed

lemma rne_of_int: "rne (real_of_int n) = n"
  by (simp add: rne_def)

lemma rne_range: "\<lfloor>r\<rfloor> \<le> rne r \<and> rne r \<le> \<lfloor>r\<rfloor> + 1"
  by (simp add: rne_def Let_def)

lemma rne_mono:
  assumes "r \<le> s"
  shows "rne r \<le> rne s"
proof (cases "\<lfloor>r\<rfloor> = \<lfloor>s\<rfloor>")
  case True
  then have "r - real_of_int \<lfloor>r\<rfloor> \<le> s - real_of_int \<lfloor>s\<rfloor>"
    using assms by simp
  then show ?thesis
    using True by (simp add: rne_def Let_def)
next
  case False
  have "\<lfloor>r\<rfloor> \<le> \<lfloor>s\<rfloor>" using assms by (rule floor_mono)
  with False have "\<lfloor>r\<rfloor> + 1 \<le> \<lfloor>s\<rfloor>" by simp
  with rne_range [of r] rne_range [of s] show ?thesis by linarith
qed

lemma ulp_pos: "0 < ulp x"
  by (simp add: ulp_def)

lemma ulp_times: "ulp x * 2 ^ 52 = 2 powi exponent x"
proof -
  have "(2::real) powi (exponent x - 52 + 52) = 2 powi (exponent x - 52) * 2 powi 52"
    by (rule power_int_add) simp
  then show ?thesis by (simp add: ulp_def)
qed

lemma ulp_times': "ulp x * 2 ^ 53 = 2 powi (exponent x + 1)"
proof -
  have "(2::real) powi (exponent x + 1) = 2 powi exponent x * 2"
    by (rule power_int_add_1) simp
  then show ?thesis using ulp_times [of x] by simp
qed

lemma abs_below_exponent: "\<bar>x\<bar> < 2 powi (exponent x + 1)"
proof (cases "x = 0")
  case True
  then show ?thesis by simp
next
  case False
  then have "\<bar>x\<bar> < 2 powi (binade \<bar>x\<bar> + 1)"
    using binade_bounds [of "\<bar>x\<bar>"] by simp
  also have "\<dots> \<le> 2 powi (exponent x + 1)"
    using False by (intro power_int_increasing) (simp_all add: exponent_def)
  finally show ?thesis .
qed

lemma normal_above_exponent:
  assumes "- 1022 < exponent x"
  shows "x \<noteq> 0 \<and> 2 powi exponent x \<le> \<bar>x\<bar>"
proof -
  have nz: "x \<noteq> 0"
    using assms by (auto simp add: exponent_def)
  then have "exponent x = binade \<bar>x\<bar>"
    using assms by (simp add: exponent_def max_def split: if_splits)
  with nz show ?thesis
    using binade_bounds [of "\<bar>x\<bar>"] by simp
qed

lemma scale_le: "0 < u \<Longrightarrow> a \<le> b \<Longrightarrow> a * u \<le> b * (u::real)"
  by (simp add: mult_right_mono)

lemma significand_range:
  "- (2 ^ 53) \<le> rne (x / ulp x) \<and> rne (x / ulp x) \<le> 2 ^ 53"
proof -
  have "\<bar>x\<bar> < ulp x * 2 ^ 53"
    using abs_below_exponent [of x] by (simp only: ulp_times')
  then have "\<bar>x\<bar> / ulp x < 2 ^ 53"
    using ulp_pos [of x] by (simp add: pos_divide_less_eq mult.commute)
  then have "\<bar>x / ulp x\<bar> < 2 ^ 53"
    using ulp_pos [of x] by simp
  then have lo: "real_of_int (- (2 ^ 53)) \<le> x / ulp x"
    and hi: "x / ulp x \<le> real_of_int (2 ^ 53)"
    unfolding of_int_minus of_int_power of_int_numeral by linarith+
  have "rne (real_of_int (- (2 ^ 53))) \<le> rne (x / ulp x)"
    using lo by (rule rne_mono)
  moreover have "rne (x / ulp x) \<le> rne (real_of_int (2 ^ 53))"
    using hi by (rule rne_mono)
  ultimately show ?thesis by (simp only: rne_of_int)
qed

lemma fl_upper: "fl x \<le> 2 powi (exponent x + 1)"
proof -
  have "real_of_int (rne (x / ulp x)) \<le> 2 ^ 53"
    using significand_range [of x] by (metis of_int_le_iff of_int_numeral of_int_power)
  then have "real_of_int (rne (x / ulp x)) * ulp x \<le> 2 ^ 53 * ulp x"
    using ulp_pos [of x] by (intro scale_le)
  then show ?thesis
    using ulp_times' [of x] by (simp add: fl_def mult.commute)
qed

lemma fl_lower: "- (2 powi (exponent x + 1)) \<le> fl x"
proof -
  have "- (2 ^ 53) \<le> real_of_int (rne (x / ulp x))"
    using significand_range [of x]
    by (metis of_int_le_iff of_int_minus of_int_numeral of_int_power)
  then have "- (2 ^ 53) * ulp x \<le> real_of_int (rne (x / ulp x)) * ulp x"
    using ulp_pos [of x] by (intro scale_le)
  then show ?thesis
    using ulp_times' [of x] by (simp add: fl_def mult.commute)
qed

lemma fl_normal_pos:
  assumes "- 1022 < exponent x" and "0 < x"
  shows "2 powi exponent x \<le> fl x"
proof -
  have "ulp x * 2 ^ 52 \<le> x"
    using normal_above_exponent [OF assms(1)] assms(2) by (simp only: ulp_times) simp
  then have "real_of_int (2 ^ 52) \<le> x / ulp x"
    using ulp_pos [of x] by (simp add: pos_le_divide_eq mult.commute)
  then have "rne (real_of_int (2 ^ 52)) \<le> rne (x / ulp x)"
    by (rule rne_mono)
  then have "2 ^ 52 \<le> real_of_int (rne (x / ulp x))"
    by (simp only: rne_of_int) (metis of_int_le_iff of_int_numeral of_int_power)
  then have "2 ^ 52 * ulp x \<le> real_of_int (rne (x / ulp x)) * ulp x"
    using ulp_pos [of x] by (intro scale_le)
  then show ?thesis
    using ulp_times [of x] by (simp add: fl_def mult.commute)
qed

lemma fl_normal_neg:
  assumes "- 1022 < exponent x" and "x < 0"
  shows "fl x \<le> - (2 powi exponent x)"
proof -
  have "ulp x * 2 ^ 52 \<le> - x"
    using normal_above_exponent [OF assms(1)] assms(2) by (simp only: ulp_times) simp
  then have "x / ulp x \<le> real_of_int (- (2 ^ 52))"
    using ulp_pos [of x] by (simp add: pos_divide_le_eq mult.commute)
  then have "rne (x / ulp x) \<le> rne (real_of_int (- (2 ^ 52)))"
    by (rule rne_mono)
  then have "real_of_int (rne (x / ulp x)) \<le> - (2 ^ 52)"
    by (simp only: rne_of_int) (metis of_int_le_iff of_int_minus of_int_numeral of_int_power)
  then have "real_of_int (rne (x / ulp x)) * ulp x \<le> - (2 ^ 52) * ulp x"
    using ulp_pos [of x] by (intro scale_le)
  then show ?thesis
    using ulp_times [of x] by (simp add: fl_def mult.commute)
qed


lemma exponent_ge: "- 1022 \<le> exponent x"
  by (simp add: exponent_def)

lemma fl_0: "fl 0 = 0"
  by (simp add: fl_def rne_def)

lemma fl_mono:
  assumes "x \<le> y"
  shows "fl x \<le> fl y"
proof -
  consider (same) "exponent x = exponent y"
    | (less) "exponent x < exponent y"
    | (greater) "exponent y < exponent x"
    by linarith
  then show ?thesis
  proof cases
    case same
    then have u: "ulp y = ulp x" by (simp add: ulp_def)
    have "x / ulp x \<le> y / ulp x"
      using assms ulp_pos [of x] by (simp add: divide_right_mono)
    then have "rne (x / ulp x) \<le> rne (y / ulp x)"
      by (rule rne_mono)
    then have "real_of_int (rne (x / ulp x)) \<le> real_of_int (rne (y / ulp x))"
      by simp
    then have "real_of_int (rne (x / ulp x)) * ulp x \<le> real_of_int (rne (y / ulp x)) * ulp x"
      using ulp_pos [of x] by (intro scale_le)
    then show ?thesis by (simp only: fl_def u)
  next
    case less
    then have n: "- 1022 < exponent y"
      using exponent_ge [of x] by linarith
    have step: "(2::real) powi (exponent x + 1) \<le> 2 powi exponent y"
      using less by (intro power_int_increasing) simp_all
    have "\<bar>x\<bar> < \<bar>y\<bar>"
      using abs_below_exponent [of x] normal_above_exponent [OF n] step by linarith
    then have "0 < y" using assms by linarith
    then have "2 powi exponent y \<le> fl y"
      using n by (intro fl_normal_pos)
    with fl_upper [of x] step show ?thesis by linarith
  next
    case greater
    then have n: "- 1022 < exponent x"
      using exponent_ge [of y] by linarith
    have step: "(2::real) powi (exponent y + 1) \<le> 2 powi exponent x"
      using greater by (intro power_int_increasing) simp_all
    have "\<bar>y\<bar> < \<bar>x\<bar>"
      using abs_below_exponent [of y] normal_above_exponent [OF n] step by linarith
    then have "x < 0" using assms by linarith
    then have "fl x \<le> - (2 powi exponent x)"
      using n by (intro fl_normal_neg)
    with fl_lower [of y] step show ?thesis by linarith
  qed
qed

lemma fl_nonneg: "0 \<le> x \<Longrightarrow> 0 \<le> fl x"
  using fl_mono [of 0 x] by (simp add: fl_0)

lemma fl_idem: "fl (fl x) = fl x"
proof -
  define n where "n = rne (x / ulp x)"
  define e where "e = exponent x"
  define u where "u = ulp x"
  define h :: real where "h = 2 ^ 52"
  have v: "fl x = real_of_int n * u"
    by (simp add: fl_def n_def u_def)
  have u: "u = 2 powi (e - 52)"
    by (simp add: u_def e_def ulp_def)
  have upos: "0 < u" by (simp add: u)
  have uh: "u * h = 2 powi e"
    using ulp_times [of x] by (simp add: u_def e_def h_def)
  have uh2: "u * (2 * h) = 2 powi (e + 1)"
    using ulp_times' [of x] by (simp add: u_def e_def h_def)
  have uh4: "u * (4 * h) = 2 powi (e + 1 + 1)"
  proof -
    have "(2::real) powi (e + 1 + 1) = 2 powi (e + 1) * 2"
      by (rule power_int_add_1) simp
    moreover have "u * (4 * h) = u * (2 * h) * 2" by simp
    ultimately show ?thesis by (simp only: uh2)
  qed
  have range: "\<bar>real_of_int n\<bar> \<le> 2 * h"
  proof -
    have "- (2 ^ 53) \<le> n" and "n \<le> 2 ^ 53"
      unfolding n_def using significand_range [of x] by simp_all
    then have "real_of_int (- (2 ^ 53)) \<le> real_of_int n"
      and "real_of_int n \<le> real_of_int (2 ^ 53)"
      by (simp_all only: of_int_le_iff)
    moreover have "real_of_int (2 ^ 53) = 2 * h" by (simp add: h_def)
    moreover have "real_of_int (- (2 ^ 53)) = - (2 * h)" by (simp add: h_def)
    ultimately show ?thesis by linarith
  qed
  have ege: "- 1022 \<le> e" unfolding e_def by (rule exponent_ge)
  have absv: "\<bar>real_of_int n * u\<bar> = \<bar>real_of_int n\<bar> * u"
    using upos by (simp add: abs_mult)
  show ?thesis
  proof (cases "\<bar>real_of_int n\<bar> = 2 * h")
    case True
    then have "\<bar>real_of_int n * u\<bar> = 2 powi (e + 1)"
      using uh2 absv by (simp add: mult.commute)
    then have "2 powi (e + 1) \<le> \<bar>real_of_int n * u\<bar>"
      and "\<bar>real_of_int n * u\<bar> < 2 powi (e + 1 + 1)"
      using power_int_strict_increasing [of "e + 1" "e + 1 + 1" "2::real"] by simp_all
    then have b: "binade \<bar>real_of_int n * u\<bar> = e + 1"
      by (rule binade_unique)
    have nz: "real_of_int n * u \<noteq> 0"
      using True upos by (auto simp add: h_def)
    have ex: "exponent (real_of_int n * u) = e + 1"
      using nz b ege by (simp add: exponent_def)
    have u2: "ulp (real_of_int n * u) = u * 2"
    proof -
      have "ulp (real_of_int n * u) = 2 powi (e - 52 + 1)"
        by (simp add: ulp_def ex)
      also have "\<dots> = 2 powi (e - 52) * 2"
        by (rule power_int_add_1) simp
      finally show ?thesis by (simp only: u)
    qed
    have "even n"
    proof -
      have "\<bar>n\<bar> = 2 ^ 53"
      proof -
        have "real_of_int \<bar>n\<bar> = real_of_int (2 ^ 53)"
          using True by (simp add: h_def)
        then show ?thesis by (simp only: of_int_eq_iff)
      qed
      then have "even \<bar>n\<bar>" by simp
      then show ?thesis by simp
    qed
    then obtain m where m: "n = 2 * m" by (elim evenE)
    have "real_of_int n * u / (u * 2) = real_of_int m"
      using upos by (simp add: m)
    then have "fl (real_of_int n * u) = real_of_int m * (u * 2)"
      by (simp only: fl_def u2 rne_of_int)
    then show ?thesis by (simp add: v m)
  next
    case False
    with range have lt: "\<bar>real_of_int n\<bar> < 2 * h" by linarith
    show ?thesis
    proof (cases "n = 0")
      case True
      then show ?thesis by (simp add: v fl_0)
    next
      case nz: False
      then have vnz: "real_of_int n * u \<noteq> 0" using upos by simp
      have below: "\<bar>real_of_int n * u\<bar> < 2 powi (e + 1)"
      proof -
        have "\<bar>real_of_int n\<bar> * u < (2 * h) * u"
          using lt upos by (intro mult_strict_right_mono)
        then show ?thesis using uh2 absv by (simp add: mult.commute)
      qed
      have ex: "exponent (real_of_int n * u) = e"
      proof (cases "2 powi e \<le> \<bar>real_of_int n * u\<bar>")
        case True
        then have "binade \<bar>real_of_int n * u\<bar> = e"
          using below by (rule binade_unique)
        then show ?thesis using vnz ege by (simp add: exponent_def)
      next
        case small: False
        have e: "e = - 1022"
        proof (rule ccontr)
          assume "e \<noteq> - 1022"
          with ege have n: "- 1022 < exponent x" by (simp add: e_def)
          have "x \<noteq> 0" using normal_above_exponent [OF n] by simp
          then consider "0 < x" | "x < 0" by linarith
          then have "2 powi e \<le> \<bar>fl x\<bar>"
          proof cases
            case 1
            then show ?thesis using fl_normal_pos [OF n] by (simp add: e_def)
          next
            case 2
            then show ?thesis using fl_normal_neg [OF n] by (simp add: e_def)
          qed
          with small show False by (simp add: v)
        qed
        have "binade \<bar>real_of_int n * u\<bar> < e"
          using vnz small by (intro binade_below) simp_all
        then show ?thesis using vnz e by (simp add: exponent_def)
      qed
      then have "ulp (real_of_int n * u) = u"
        by (simp only: ulp_def u)
      then have "fl (real_of_int n * u) = real_of_int n * u"
        using upos by (simp add: fl_def rne_of_int)
      then show ?thesis by (simp add: v)
    qed
  qed
qed

subsection \<open>Evaluating double operations on numerals\<close>

lemma binade_eval:
  "2 \<le> x \<Longrightarrow> binade x = binade (x / 2) + 1"
  "0 < x \<Longrightarrow> x < 1 \<Longrightarrow> binade x = binade (x * 2) - 1"
  "1 \<le> x \<Longrightarrow> x < 2 \<Longrightarrow> binade x = 0"
  "x \<le> 0 \<Longrightarrow> binade x = 0"
  by (simp_all add: binade.simps [of x])

lemmas double_eval = fl_def ulp_def exponent_def binade_eval rne_def
  dadd_def dsub_def dmul_def ddiv_def toFixed2_def

lemmas run_eval = calculateCompoundInterest_def year_loop.simps year_step_def
  emit_result_def frequencyMultiplier_def

section \<open>Properties of the simulation engine\<close>

subsection \<open>The loop as a list of emitted records\<close>

lemma state_after_0: "state_after p m st 0 = st"
  by (simp add: state_after_def)

lemma state_after_Suc: "state_after p m st (Suc n) = year_step p m (state_after p m st n)"
  by (simp add: state_after_def)

lemma state_after_shift: "state_after p m (year_step p m st) n = state_after p m st (Suc n)"
  by (simp add: state_after_def funpow_swap1)

lemma iterations_step:
  assumes "y \<le> years p"
  shows "nat \<lfloor>years p - y + 1\<rfloor> = Suc (nat \<lfloor>years p - (y + 1) + 1\<rfloor>)"
proof -
  have "0 \<le> \<lfloor>years p - y\<rfloor>" using assms by simp
  moreover have "\<lfloor>years p - y + 1\<rfloor> = \<lfloor>years p - y\<rfloor> + 1" by simp
  ultimately show ?thesis by (simp add: Suc_nat_eq_nat_zadd1 add.commute)
qed

lemma year_loop_unfold:
  "year_loop p m y st results =
     results @ map (\<lambda>i. emit_result (y + real i) (state_after p m st (Suc i)))
                   [0..<nat \<lfloor>years p - y + 1\<rfloor>]"
proof (induction p m y st results rule: year_loop.induct)
  case (1 p m y st results)
  show ?case
  proof (cases "y \<le> years p")
    case True
    let ?n = "nat \<lfloor>years p - (y + 1) + 1\<rfloor>"
    have n: "nat \<lfloor>years p - y + 1\<rfloor> = Suc ?n"
      using True by (rule iterations_step)
    have "year_loop p m y st results =
            year_loop p m (y + 1) (year_step p m st)
              (results @ [emit_result y (year_step p m st)])"
      using True by (simp add: year_loop.simps [of p m y])
    also have "\<dots> = (results @ [emit_result y (year_step p m st)]) @
            map (\<lambda>i. emit_result (y + 1 + real i) (state_after p m (year_step p m st) (Suc i)))
                [0..<?n]"
      using "1.IH" [OF True] .
    also have "\<dots> = results @
            map (\<lambda>i. emit_result (y + real i) (state_after p m st (Suc i))) [0..<Suc ?n]"
      by (simp add: map_upt_Suc state_after_shift state_after_0 state_after_Suc add.assoc del: upt_Suc)
    finally show ?thesis by (simp only: n)
  next
    case False
    then have "years p - y + 1 < 1" by simp
    then have "\<lfloor>years p - y + 1\<rfloor> \<le> 0" by (simp only: floor_le_zero)
    then have "nat \<lfloor>years p - y + 1\<rfloor> = 0" by simp
    with False show ?thesis by (simp add: year_loop.simps [of p m y])
  qed
qed

lemma state_after_add:
  "state_after p m (state_after p m st k) n = state_after p m st (k + n)"
  by (simp add: state_after_def funpow_add add.commute [of k n])

lemma simulate_unfold:
  "calculateCompoundInterest p =
     map (\<lambda>i. emit_result (1 + real i) (running_state p (Suc i))) [0..<nat \<lfloor>years p\<rfloor>]"
  by (simp add: calculateCompoundInterest_def running_state_def year_loop_unfold)

lemma simulate_length: "length (calculateCompoundInterest p) = nat \<lfloor>years p\<rfloor>"
  by (simp add: simulate_unfold)

lemma simulate_nth:
  "i < nat \<lfloor>years p\<rfloor> \<Longrightarrow>
     calculateCompoundInterest p ! i = emit_result (1 + real i) (running_state p (Suc i))"
  by (simp add: simulate_unfold)

lemma valid_years: "valid_params p \<Longrightarrow> real (nat \<lfloor>years p\<rfloor>) = years p"
proof -
  assume v: "valid_params p"
  then have "0 \<le> \<lfloor>years p\<rfloor>" by (simp add: valid_params_def)
  then have "real (nat \<lfloor>years p\<rfloor>) = real_of_int \<lfloor>years p\<rfloor>" by simp
  also have "\<dots> = years p" using v by (simp add: valid_params_def)
  finally show ?thesis .
qed

lemma valid_index: "valid_params p \<Longrightarrow> real i < years p \<Longrightarrow> i < nat \<lfloor>years p\<rfloor>"
  using valid_years [of p] by linarith

lemma frequency_tag_multiplier: "frequencyMultiplier (frequency_tag f) = multiplier f"
  by (cases f) (simp_all add: frequencyMultiplier_def)

lemma state_after_spec:
  "state_after p m (s, s) n =
     (spec_balance s (rateOfReturn p) (dmul (incrementalAddition p) m) n,
      spec_invested s (dmul (incrementalAddition p) m) n)"
  by (induction n) (simp_all add: state_after_0 state_after_Suc year_step_def)

lemma running_state_unrounded:
  "running_state p n = (unrounded_balance p n, unrounded_invested p n)"
  by (simp add: running_state_def state_after_spec unrounded_balance_def
      unrounded_invested_def contribution_def)

lemma unrounded_balance_Suc:
  "unrounded_balance p (Suc n) =
     dadd (dmul (unrounded_balance p n) (dadd 1 (ddiv (rateOfReturn p) 100)))
       (contribution p)"
  by (simp add: unrounded_balance_def)

lemma simulate_nth_unrounded:
  "i < nat \<lfloor>years p\<rfloor> \<Longrightarrow>
     calculateCompoundInterest p ! i =
       \<lparr>year = real i + 1,
        totalValue = toFixed2 (unrounded_balance p (Suc i)),
        invested = toFixed2 (unrounded_invested p (Suc i)),
        gained = toFixed2
          (dsub (unrounded_balance p (Suc i)) (unrounded_invested p (Suc i)))\<rparr>"
  by (simp add: simulate_nth running_state_unrounded emit_result_def add.commute)

lemma floor_minus_nat: "nat \<lfloor>x - real k\<rfloor> = nat \<lfloor>x\<rfloor> - k"
proof -
  have "\<lfloor>x - real k\<rfloor> = \<lfloor>x\<rfloor> - int k"
    using floor_diff_of_int [of x "int k"] by simp
  then show ?thesis by simp
qed

lemma year_loop_resume:
  assumes "k \<le> nat \<lfloor>years p\<rfloor>"
  shows "year_loop p m 1 st [] =
           year_loop p m (real k + 1) (state_after p m st k)
             (take k (year_loop p m 1 st []))"
proof -
  let ?n = "nat \<lfloor>years p\<rfloor>"
  let ?f = "\<lambda>i. emit_result (1 + real i) (state_after p m st (Suc i))"
  have whole: "year_loop p m 1 st [] = map ?f [0..<?n]"
    by (simp add: year_loop_unfold)
  have rest: "nat \<lfloor>years p - (real k + 1) + 1\<rfloor> = ?n - k"
    using floor_minus_nat [of "years p" k] by simp
  have prefix: "take k (map ?f [0..<?n]) = map ?f [0..<k]"
    using assms by (simp add: take_map)
  have "map (\<lambda>i. emit_result (real k + 1 + real i)
                     (state_after p m (state_after p m st k) (Suc i))) [0..<?n - k]
               = map ?f (map (\<lambda>i. i + k) [0..<?n - k])"
    by (simp add: state_after_add add.commute add.left_commute)
  also have "map (\<lambda>i. i + k) [0..<?n - k] = [k..<?n]"
    using assms by (simp add: map_add_upt)
  finally have suffix: "map (\<lambda>i. emit_result (real k + 1 + real i)
                     (state_after p m (state_after p m st k) (Suc i))) [0..<?n - k]
               = map ?f [k..<?n]" .
  have join: "map ?f [0..<k] @ map ?f [k..<?n] = map ?f [0..<?n]"
    using assms upt_add_eq_append [of 0 k "?n - k"] by (simp flip: map_append)
  have "year_loop p m (real k + 1) (state_after p m st k) (map ?f [0..<k]) =
          map ?f [0..<k] @
          map (\<lambda>i. emit_result (real k + 1 + real i)
                     (state_after p m (state_after p m st k) (Suc i))) [0..<?n - k]"
    by (simp only: year_loop_unfold [of p m "real k + 1"] rest)
  then have "year_loop p m (real k + 1) (state_after p m st k) (map ?f [0..<k]) =
          map ?f [0..<?n]"
    by (simp only: suffix join)
  then show ?thesis by (simp only: whole prefix)
qed

lemma year_step_frequency:
  "year_step (p\<lparr>incrementalFrequency := f\<rparr>) m st = year_step p m st"
  by (simp add: year_step_def)

lemma state_after_frequency:
  "state_after (p\<lparr>incrementalFrequency := f\<rparr>) m st n = state_after p m st n"
  by (induction n) (simp_all add: state_after_0 state_after_Suc year_step_frequency)

lemma year_loop_frequency:
  "year_loop (p\<lparr>incrementalFrequency := f\<rparr>) m y st results = year_loop p m y st results"
  by (simp add: year_loop_unfold state_after_frequency)

lemma contribution_nonneg: "0 \<le> incrementalAddition p \<Longrightarrow> 0 \<le> contribution p"
proof -
  assume a: "0 \<le> incrementalAddition p"
  have "0 \<le> frequencyMultiplier (incrementalFrequency p)"
    by (simp add: frequencyMultiplier_def)
  with a have "0 \<le> incrementalAddition p * frequencyMultiplier (incrementalFrequency p)"
    by (rule mult_nonneg_nonneg)
  then show ?thesis
    unfolding contribution_def dmul_def by (rule fl_nonneg)
qed

lemma unrounded_invested_mono:
  assumes "0 \<le> incrementalAddition p"
  shows "unrounded_invested p (Suc n) \<le> unrounded_invested p (Suc (Suc n))"
proof -
  define z where "z = unrounded_invested p n + contribution p"
  have one: "unrounded_invested p (Suc n) = fl z"
    by (simp add: unrounded_invested_def dadd_def z_def)
  have two: "unrounded_invested p (Suc (Suc n)) = fl (fl z + contribution p)"
    by (simp add: unrounded_invested_def dadd_def z_def)
  have "fl z \<le> fl z + contribution p"
    using contribution_nonneg [OF assms] by simp
  then have "fl (fl z) \<le> fl (fl z + contribution p)"
    by (rule fl_mono)
  then show ?thesis
    by (simp only: one two fl_idem)
qed

subsection \<open>Rounding to two decimals\<close>

lemma toFixed2_cents:
  "toFixed2 x = (if 10 ^ 21 \<le> \<bar>x\<bar> then x else fl (real_of_int (cents x) / 100))"
  by (simp add: toFixed2_def cents_def)

lemma cents_nonneg: "\<not> x < 0 \<Longrightarrow> 0 \<le> cents x"
  by (simp add: cents_def)

lemma cents_nonpos: "x < 0 \<Longrightarrow> cents x \<le> 0"
  by (simp add: cents_def)

lemma cents_mono: "x \<le> y \<Longrightarrow> cents x \<le> cents y"
proof -
  assume xy: "x \<le> y"
  show ?thesis
  proof (cases "x < 0")
    case xneg: True
    show ?thesis
    proof (cases "y < 0")
      case True
      have "\<lfloor>(- y) * 100 + 1 / 2\<rfloor> \<le> \<lfloor>(- x) * 100 + 1 / 2\<rfloor>"
        using xy by (intro floor_mono) simp
      with xneg True show ?thesis by (simp add: cents_def)
    next
      case False
      show ?thesis
        using cents_nonpos [OF xneg] cents_nonneg [OF False] by linarith
    qed
  next
    case False
    then have "\<not> y < 0" using xy by simp
    moreover have "\<lfloor>x * 100 + 1 / 2\<rfloor> \<le> \<lfloor>y * 100 + 1 / 2\<rfloor>"
      using xy by (intro floor_mono) simp
    ultimately show ?thesis using False by (simp add: cents_def)
  qed
qed

lemma toFixed2_threshold:
  "fl (real_of_int (cents (10 ^ 21)) / 100) = 10 ^ 21"
  "fl (real_of_int (cents (- (10 ^ 21))) / 100) = - (10 ^ 21)"
  by (simp_all add: cents_def double_eval)

lemma toFixed2_mono:
  assumes "x \<le> y"
  shows "toFixed2 x \<le> toFixed2 y"
proof -
  define t :: real where "t = 10 ^ 21"
  have below: "fl (real_of_int (cents z) / 100) \<le> t" if "z \<le> t" for z
  proof -
    have "cents z \<le> cents t" using that by (rule cents_mono)
    then have "real_of_int (cents z) / 100 \<le> real_of_int (cents t) / 100"
      by (simp add: divide_right_mono)
    then have "fl (real_of_int (cents z) / 100) \<le> fl (real_of_int (cents t) / 100)"
      by (rule fl_mono)
    moreover have "fl (real_of_int (cents t) / 100) = t"
      unfolding t_def by (rule toFixed2_threshold)
    ultimately show ?thesis by simp
  qed
  have above: "- t \<le> fl (real_of_int (cents z) / 100)" if "- t \<le> z" for z
  proof -
    have "cents (- t) \<le> cents z" using that by (rule cents_mono)
    then have "real_of_int (cents (- t)) / 100 \<le> real_of_int (cents z) / 100"
      by (simp add: divide_right_mono)
    then have "fl (real_of_int (cents (- t)) / 100) \<le> fl (real_of_int (cents z) / 100)"
      by (rule fl_mono)
    moreover have "fl (real_of_int (cents (- t)) / 100) = - t"
      unfolding t_def by (rule toFixed2_threshold)
    ultimately show ?thesis by simp
  qed
  have tx: "toFixed2 x = (if t \<le> \<bar>x\<bar> then x else fl (real_of_int (cents x) / 100))"
    by (simp only: toFixed2_cents t_def)
  have ty: "toFixed2 y = (if t \<le> \<bar>y\<bar> then y else fl (real_of_int (cents y) / 100))"
    by (simp only: toFixed2_cents t_def)
  show ?thesis
  proof (cases "t \<le> \<bar>x\<bar>")
    case bx: True
    show ?thesis
    proof (cases "t \<le> \<bar>y\<bar>")
      case True
      with bx assms show ?thesis by (simp add: tx ty)
    next
      case False
      then have "x \<le> - t" using bx assms by linarith
      moreover have "- t \<le> fl (real_of_int (cents y) / 100)"
        using False by (intro above) linarith
      ultimately show ?thesis using bx False by (simp add: tx ty)
    qed
  next
    case sx: False
    show ?thesis
    proof (cases "t \<le> \<bar>y\<bar>")
      case True
      then have "t \<le> y" using sx assms by linarith
      moreover have "fl (real_of_int (cents x) / 100) \<le> t"
        using sx by (intro below) linarith
      ultimately show ?thesis using sx True by (simp add: tx ty)
    next
      case False
      have "cents x \<le> cents y" using assms by (rule cents_mono)
      then have "real_of_int (cents x) / 100 \<le> real_of_int (cents y) / 100"
        by (simp add: divide_right_mono)
      then have "fl (real_of_int (cents x) / 100) \<le> fl (real_of_int (cents y) / 100)"
        by (rule fl_mono)
      then show ?thesis using sx False by (simp add: tx ty)
    qed
  qed
qed

subsection \<open>The claims about the simulation\<close>

text \<open>
  Claim C8: for every parameter set with \<open>years < 1\<close> (zero, negative or a fraction
  below one), the simulation returns the empty series. The model is a total function
  with no error value, as the source has no \<open>throw\<close>.
\<close>

theorem simulate_years_below_one_empty:
  "years p < 1 \<Longrightarrow> calculateCompoundInterest p = []"
  by (simp add: calculateCompoundInterest_def year_loop.simps)

theorem simulate_years_below_one_empty_witness:
  "years \<lparr>startingAmount = 100, rateOfReturn = 10, incrementalAddition = 505.75,
          incrementalFrequency = ''monthly'', years = 0\<rparr> < 1
   \<and> calculateCompoundInterest
        \<lparr>startingAmount = 100, rateOfReturn = 10, incrementalAddition = 505.75,
         incrementalFrequency = ''monthly'', years = 0\<rparr> = []"
  using simulate_years_below_one_empty
    [of "\<lparr>startingAmount = 100, rateOfReturn = 10, incrementalAddition = 505.75,
          incrementalFrequency = ''monthly'', years = 0\<rparr>"]
  by simp


text \<open>
  Claim C1: for valid parameters the entry of year \<open>i + 1\<close> is the two-decimal rounding
  of the specification's recurrences: the balance is first multiplied by
  \<open>1 + rateOfReturn / 100\<close> and then receives \<open>incrementalAddition\<close> times the
  frequency multiplier (12, 4 or 1), which is also added to the invested total, so a
  contribution earns nothing in its own year. The operations are the double operations
  of the code, and the run is one whose values stay finite. The one-year monthly
  scenario of the specification emits total value 6179.00, invested 6169.00 and gained
  10.00.
\<close>

theorem simulate_growth_before_contribution:
  assumes "valid_params p"
    and "incrementalFrequency p = frequency_tag f"
    and "real i < years p"
    and "finite_run p (Suc i)"
  shows "calculateCompoundInterest p ! i =
           \<lparr>year = real i + 1,
            totalValue = toFixed2
              (spec_balance (startingAmount p) (rateOfReturn p)
                 (dmul (incrementalAddition p) (multiplier f)) (Suc i)),
            invested = toFixed2
              (spec_invested (startingAmount p)
                 (dmul (incrementalAddition p) (multiplier f)) (Suc i)),
            gained = toFixed2
              (dsub
                 (spec_balance (startingAmount p) (rateOfReturn p)
                    (dmul (incrementalAddition p) (multiplier f)) (Suc i))
                 (spec_invested (startingAmount p)
                    (dmul (incrementalAddition p) (multiplier f)) (Suc i)))\<rparr>
         \<and> calculateCompoundInterest spec_example =
             [\<lparr>year = 1, totalValue = 6179, invested = 6169, gained = 10\<rparr>]"
proof
  have i: "i < nat \<lfloor>years p\<rfloor>"
    using assms(1) assms(3) by (rule valid_index)
  have m: "frequencyMultiplier (incrementalFrequency p) = multiplier f"
    by (simp only: assms(2) frequency_tag_multiplier)
  have "running_state p (Suc i) =
          (spec_balance (startingAmount p) (rateOfReturn p)
             (dmul (incrementalAddition p) (multiplier f)) (Suc i),
           spec_invested (startingAmount p)
             (dmul (incrementalAddition p) (multiplier f)) (Suc i))"
    by (simp only: running_state_def m state_after_spec)
  then show "calculateCompoundInterest p ! i =
           \<lparr>year = real i + 1,
            totalValue = toFixed2
              (spec_balance (startingAmount p) (rateOfReturn p)
                 (dmul (incrementalAddition p) (multiplier f)) (Suc i)),
            invested = toFixed2
              (spec_invested (startingAmount p)
                 (dmul (incrementalAddition p) (multiplier f)) (Suc i)),
            gained = toFixed2
              (dsub
                 (spec_balance (startingAmount p) (rateOfReturn p)
                    (dmul (incrementalAddition p) (multiplier f)) (Suc i))
                 (spec_invested (startingAmount p)
                    (dmul (incrementalAddition p) (multiplier f)) (Suc i)))\<rparr>"
    by (simp add: simulate_nth [OF i] emit_result_def add.commute)
next
  show "calculateCompoundInterest spec_example =
          [\<lparr>year = 1, totalValue = 6179, invested = 6169, gained = 10\<rparr>]"
    by (simp add: spec_example_def run_eval double_eval)
qed

text \<open>
  The instance at 150 with 3 percent over two years: the double balance of year 2 is
  just below 159.135, and the entry has total value 159.13 and gained 9.13.
\<close>

theorem simulate_growth_before_contribution_witness:
  "valid_params half_cent_example
   \<and> incrementalFrequency half_cent_example = frequency_tag Yearly
   \<and> real (Suc 0) < years half_cent_example
   \<and> finite_run half_cent_example (Suc (Suc 0))
   \<and> calculateCompoundInterest half_cent_example ! Suc 0 =
       \<lparr>year = 2, totalValue = fl 159.13, invested = 150, gained = fl 9.13\<rparr>"
proof -
  have v: "valid_params half_cent_example"
    by (simp add: valid_params_def half_cent_example_def)
  have t: "incrementalFrequency half_cent_example = frequency_tag Yearly"
    by (simp add: half_cent_example_def)
  have y: "real (Suc 0) < years half_cent_example"
    by (simp add: half_cent_example_def)
  have r: "finite_run half_cent_example (Suc (Suc 0))"
    by (simp add: half_cent_example_def unrounded_balance_def unrounded_invested_def
        contribution_def frequencyMultiplier_def is_double_def in_range_def max_double_def
        double_eval)
  have "calculateCompoundInterest half_cent_example ! Suc 0 =
          \<lparr>year = 2, totalValue = fl 159.13, invested = 150, gained = fl 9.13\<rparr>"
    using simulate_growth_before_contribution [OF v t y r]
    by (simp add: half_cent_example_def double_eval)
  with v t y r show ?thesis by simp
qed

text \<open>
  Claim C3: for valid parameters the series has exactly \<open>years\<close> entries, and the entry at
  index \<open>i\<close> carries the year \<open>i + 1\<close>.
\<close>

theorem simulate_length_and_year_numbers:
  assumes "valid_params p"
  shows "real (length (calculateCompoundInterest p)) = years p
         \<and> (\<forall>i < length (calculateCompoundInterest p).
               year (calculateCompoundInterest p ! i) = real i + 1)"
proof
  show "real (length (calculateCompoundInterest p)) = years p"
    using assms by (simp only: simulate_length valid_years)
next
  show "\<forall>i < length (calculateCompoundInterest p).
          year (calculateCompoundInterest p ! i) = real i + 1"
    by (simp add: simulate_length simulate_nth emit_result_def)
qed

theorem simulate_length_and_year_numbers_witness:
  "valid_params carry_example
   \<and> length (calculateCompoundInterest carry_example) = 4
   \<and> year (calculateCompoundInterest carry_example ! 0) = 1
   \<and> year (calculateCompoundInterest carry_example ! 3) = 4"
proof -
  have v: "valid_params carry_example"
    by (simp add: valid_params_def carry_example_def)
  note c3 = simulate_length_and_year_numbers [OF v]
  have "real (length (calculateCompoundInterest carry_example)) = 4"
    using c3 by (simp add: carry_example_def)
  then have l4: "length (calculateCompoundInterest carry_example) = 4"
    by linarith
  have "year (calculateCompoundInterest carry_example ! 0) = real 0 + 1"
    using c3 l4 by simp
  moreover have "year (calculateCompoundInterest carry_example ! 3) = real 3 + 1"
    using c3 l4 by simp
  ultimately show ?thesis using v l4 by simp
qed


text \<open>
  Claim C2, as the code has it: for valid parameters with at least two years (and a run
  whose values stay finite), the loop enters year \<open>k + 1\<close> with the unrounded balance and
  the unrounded invested total of year \<open>k\<close>, the values of the recurrences in which
  nothing is rounded to two decimals. Year \<open>k\<close> emitted the two-decimal rounding of
  that balance, and year \<open>k + 1\<close> emits the rounding of the unrounded balance after
  growth and contribution. Rounding to two decimals is applied to the emitted record
  only and never written back to the running variables.
\<close>

theorem simulate_carries_unrounded_balance:
  assumes "valid_params p"
    and "2 \<le> years p"
    and "1 \<le> k"
    and "real k < years p"
    and "finite_run p (Suc k)"
  shows "calculateCompoundInterest p =
           year_loop p (frequencyMultiplier (incrementalFrequency p)) (real k + 1)
             (unrounded_balance p k, unrounded_invested p k)
             (take k (calculateCompoundInterest p))
         \<and> totalValue (calculateCompoundInterest p ! (k - 1)) =
             toFixed2 (unrounded_balance p k)
         \<and> totalValue (calculateCompoundInterest p ! k) =
             toFixed2
               (dadd (dmul (unrounded_balance p k) (dadd 1 (ddiv (rateOfReturn p) 100)))
                  (dmul (incrementalAddition p)
                     (frequencyMultiplier (incrementalFrequency p))))"
proof (intro conjI)
  have k: "k < nat \<lfloor>years p\<rfloor>"
    using assms(1) assms(4) by (rule valid_index)
  then have "k \<le> nat \<lfloor>years p\<rfloor>" by simp
  then have "year_loop p (frequencyMultiplier (incrementalFrequency p)) 1
               (startingAmount p, startingAmount p) [] =
             year_loop p (frequencyMultiplier (incrementalFrequency p)) (real k + 1)
               (state_after p (frequencyMultiplier (incrementalFrequency p))
                  (startingAmount p, startingAmount p) k)
               (take k (year_loop p (frequencyMultiplier (incrementalFrequency p)) 1
                          (startingAmount p, startingAmount p) []))"
    by (rule year_loop_resume)
  then show "calculateCompoundInterest p =
           year_loop p (frequencyMultiplier (incrementalFrequency p)) (real k + 1)
             (unrounded_balance p k, unrounded_invested p k)
             (take k (calculateCompoundInterest p))"
    by (simp only: calculateCompoundInterest_def running_state_def [symmetric]
        running_state_unrounded)
  have "k - 1 < nat \<lfloor>years p\<rfloor>" using k by simp
  then have "totalValue (calculateCompoundInterest p ! (k - 1)) =
          toFixed2 (unrounded_balance p (Suc (k - 1)))"
    by (simp add: simulate_nth_unrounded)
  then show "totalValue (calculateCompoundInterest p ! (k - 1)) =
          toFixed2 (unrounded_balance p k)"
    using assms(3) by simp
  show "totalValue (calculateCompoundInterest p ! k) =
          toFixed2
            (dadd (dmul (unrounded_balance p k) (dadd 1 (ddiv (rateOfReturn p) 100)))
               (dmul (incrementalAddition p)
                  (frequencyMultiplier (incrementalFrequency p))))"
    by (simp add: simulate_nth_unrounded [OF k] unrounded_balance_Suc contribution_def)
qed

lemma carry_example_run:
  "calculateCompoundInterest carry_example =
     [\<lparr>year = 1, totalValue = 1070, invested = 1000, gained = 70\<rparr>,
      \<lparr>year = 2, totalValue = fl 1144.9, invested = 1000, gained = fl 144.9\<rparr>,
      \<lparr>year = 3, totalValue = fl 1225.04, invested = 1000, gained = fl 225.04\<rparr>,
      \<lparr>year = 4, totalValue = fl 1310.8, invested = 1000, gained = fl 310.8\<rparr>]"
  by (simp add: carry_example_def run_eval double_eval)

lemma carry_example_balance:
  "unrounded_balance carry_example 3 = fl 1225.0430000000001"
  by (simp add: unrounded_balance_def contribution_def carry_example_def
      frequencyMultiplier_def numeral_3_eq_3 double_eval)

theorem simulate_carries_unrounded_balance_witness:
  "valid_params carry_example \<and> 2 \<le> years carry_example \<and> (1::nat) \<le> 3
   \<and> real 3 < years carry_example
   \<and> finite_run carry_example (Suc 3)
   \<and> unrounded_balance carry_example 3 = fl 1225.0430000000001
   \<and> totalValue (calculateCompoundInterest carry_example ! 2) = fl 1225.04
   \<and> totalValue (calculateCompoundInterest carry_example ! 3) = fl 1310.8"
proof -
  have v: "valid_params carry_example"
    by (simp add: valid_params_def carry_example_def)
  have y: "2 \<le> years carry_example" "real 3 < years carry_example"
    by (simp_all add: carry_example_def)
  have r: "finite_run carry_example (Suc 3)"
    by (simp add: carry_example_def unrounded_balance_def unrounded_invested_def
        contribution_def frequencyMultiplier_def is_double_def in_range_def max_double_def
        numeral_3_eq_3 double_eval)
  have "totalValue (calculateCompoundInterest carry_example ! (3 - 1)) = fl 1225.04
        \<and> totalValue (calculateCompoundInterest carry_example ! 3) = fl 1310.8"
    using simulate_carries_unrounded_balance [OF v y(1) _ y(2) r]
    by (simp add: carry_example_balance)
      (simp add: carry_example_def frequencyMultiplier_def double_eval)
  with v y r carry_example_balance show ?thesis by simp
qed

text \<open>
  The claim as the specification words it (the rounded, emitted total value of year 3 is
  what year 4 grows) fails on the four-year scenario at 7 percent: the balance carried
  into year 4 is the double 1225.0430000000001, not the emitted 1225.04, and year 4
  emits 1310.80 where growing the emitted value would give 1310.79.
\<close>

theorem simulate_round_and_carry_counterexample:
  "unrounded_balance carry_example 3
     \<noteq> totalValue (calculateCompoundInterest carry_example ! 2)
   \<and> totalValue (calculateCompoundInterest carry_example ! 3)
     \<noteq> toFixed2
         (dadd
            (dmul (totalValue (calculateCompoundInterest carry_example ! 2))
               (dadd 1 (ddiv (rateOfReturn carry_example) 100)))
            (dmul (incrementalAddition carry_example)
               (frequencyMultiplier (incrementalFrequency carry_example))))"
  by (simp add: carry_example_run carry_example_balance)
    (simp add: carry_example_def frequencyMultiplier_def double_eval)

text \<open>
  Claim C4, as the code has it: in every entry (of a run whose values stay finite) the
  emitted \<open>gained\<close> is the two-decimal rounding of the unrounded balance minus the
  unrounded invested total, where the emitted \<open>totalValue\<close> and \<open>invested\<close> are the
  two-decimal roundings of these two values. It is not always the emitted
  \<open>totalValue\<close> minus the emitted \<open>invested\<close>.
\<close>

theorem simulate_gained_rounds_the_difference:
  assumes "valid_params p"
    and "real i < years p"
    and "finite_run p (Suc i)"
  shows "gained (calculateCompoundInterest p ! i) =
           toFixed2 (dsub (unrounded_balance p (Suc i)) (unrounded_invested p (Suc i)))
         \<and> totalValue (calculateCompoundInterest p ! i) =
             toFixed2 (unrounded_balance p (Suc i))
         \<and> invested (calculateCompoundInterest p ! i) =
             toFixed2 (unrounded_invested p (Suc i))"
proof -
  have i: "i < nat \<lfloor>years p\<rfloor>"
    using assms(1) assms(2) by (rule valid_index)
  show ?thesis
    by (simp add: simulate_nth_unrounded [OF i])
qed

lemma rounding_example_state:
  "unrounded_balance rounding_example (Suc 1) = fl 131.43265"
  "unrounded_invested rounding_example (Suc 1) = fl 120.666"
  by (simp_all add: unrounded_balance_def unrounded_invested_def contribution_def
      rounding_example_def frequencyMultiplier_def double_eval)

theorem simulate_gained_rounds_the_difference_witness:
  "valid_params rounding_example \<and> real 1 < years rounding_example
   \<and> finite_run rounding_example (Suc 1)
   \<and> gained (calculateCompoundInterest rounding_example ! 1) = fl 10.77
   \<and> totalValue (calculateCompoundInterest rounding_example ! 1) = fl 131.43
   \<and> invested (calculateCompoundInterest rounding_example ! 1) = fl 120.67"
proof -
  have v: "valid_params rounding_example"
    by (simp add: valid_params_def rounding_example_def)
  have y: "real 1 < years rounding_example"
    by (simp add: rounding_example_def)
  have r: "finite_run rounding_example (Suc 1)"
    by (simp add: rounding_example_def unrounded_balance_def unrounded_invested_def
        contribution_def frequencyMultiplier_def is_double_def in_range_def max_double_def
        double_eval)
  have "gained (calculateCompoundInterest rounding_example ! 1) = fl 10.77
        \<and> totalValue (calculateCompoundInterest rounding_example ! 1) = fl 131.43
        \<and> invested (calculateCompoundInterest rounding_example ! 1) = fl 120.67"
    using simulate_gained_rounds_the_difference [OF v y r]
    by (simp only: rounding_example_state) (simp add: double_eval)
  with v y r show ?thesis by simp
qed

text \<open>
  The claim as stated fails in year 2 of the two-year scenario with a yearly addition of
  10.333 at 5 percent: the entry has total value 131.43, invested 120.67 and gained 10.77,
  while 131.43 - 120.67 is 10.76, as an exact difference and as a double difference.
\<close>

theorem simulate_gained_counterexample:
  "gained (calculateCompoundInterest rounding_example ! 1)
     \<noteq> totalValue (calculateCompoundInterest rounding_example ! 1)
       - invested (calculateCompoundInterest rounding_example ! 1)
   \<and> gained (calculateCompoundInterest rounding_example ! 1)
     \<noteq> dsub (totalValue (calculateCompoundInterest rounding_example ! 1))
          (invested (calculateCompoundInterest rounding_example ! 1))"
proof -
  have "calculateCompoundInterest rounding_example =
          [\<lparr>year = 1, totalValue = fl 115.33, invested = fl 110.33, gained = 5\<rparr>,
           \<lparr>year = 2, totalValue = fl 131.43, invested = fl 120.67, gained = fl 10.77\<rparr>]"
    by (simp add: rounding_example_def run_eval double_eval)
  then show ?thesis by (simp add: double_eval)
qed

text \<open>
  Claim C5, as the code has it: for valid parameters whose incrementalAddition is not
  negative, the invested field of an entry is at most the invested field of the next.
\<close>

theorem simulate_invested_nondecreasing:
  assumes "valid_params p"
    and "0 \<le> incrementalAddition p"
    and "real (Suc i) < years p"
  shows "invested (calculateCompoundInterest p ! i)
           \<le> invested (calculateCompoundInterest p ! Suc i)"
proof -
  have s: "Suc i < nat \<lfloor>years p\<rfloor>"
    using assms(1) assms(3) by (rule valid_index)
  then have i: "i < nat \<lfloor>years p\<rfloor>" by simp
  have "toFixed2 (unrounded_invested p (Suc i))
          \<le> toFixed2 (unrounded_invested p (Suc (Suc i)))"
    using assms(2) by (intro toFixed2_mono unrounded_invested_mono)
  then show ?thesis
    by (simp add: simulate_nth_unrounded [OF i] simulate_nth_unrounded [OF s])
qed

theorem simulate_invested_nondecreasing_witness:
  "valid_params rounding_example \<and> 0 \<le> incrementalAddition rounding_example
   \<and> real (Suc 0) < years rounding_example
   \<and> invested (calculateCompoundInterest rounding_example ! 0)
       \<le> invested (calculateCompoundInterest rounding_example ! Suc 0)"
  using simulate_invested_nondecreasing [of rounding_example 0]
  by (simp add: valid_params_def rounding_example_def double_eval)

text \<open>
  With a negative incrementalAddition the claim fails: starting from 100 and adding -10
  each year, the invested field is 90 in year 1 and 80 in year 2.
\<close>

theorem simulate_invested_counterexample:
  "\<not> invested (calculateCompoundInterest withdrawal_example ! 0)
       \<le> invested (calculateCompoundInterest withdrawal_example ! 1)"
proof -
  have "map invested (calculateCompoundInterest withdrawal_example) = [90, 80]"
    by (simp add: withdrawal_example_def run_eval double_eval)
  then have "invested (calculateCompoundInterest withdrawal_example ! 0) = 90
             \<and> invested (calculateCompoundInterest withdrawal_example ! 1) = 80"
    by (auto simp add: map_eq_Cons_conv)
  then show ?thesis by simp
qed

text \<open>
  Claim C10: for every frequency string other than "monthly" and "quarterly", recognised
  or not, the multiplier is 1 and the simulation returns what it returns for "yearly".
  The model is a total function: no input makes it fail.
\<close>

theorem simulate_other_frequency_is_yearly:
  assumes "f \<noteq> ''monthly''"
    and "f \<noteq> ''quarterly''"
  shows "frequencyMultiplier f = 1
         \<and> calculateCompoundInterest (p\<lparr>incrementalFrequency := f\<rparr>) =
             calculateCompoundInterest (p\<lparr>incrementalFrequency := ''yearly''\<rparr>)"
proof
  show m: "frequencyMultiplier f = 1"
    using assms by (simp add: frequencyMultiplier_def)
  have "frequencyMultiplier ''yearly'' = 1"
    by (simp add: frequencyMultiplier_def)
  with m show "calculateCompoundInterest (p\<lparr>incrementalFrequency := f\<rparr>) =
          calculateCompoundInterest (p\<lparr>incrementalFrequency := ''yearly''\<rparr>)"
    by (simp add: calculateCompoundInterest_def year_loop_frequency)
qed

theorem simulate_other_frequency_is_yearly_witness:
  "''weekly'' \<noteq> ''monthly'' \<and> ''weekly'' \<noteq> ''quarterly''
   \<and> frequencyMultiplier ''weekly'' = 1
   \<and> calculateCompoundInterest (spec_example\<lparr>incrementalFrequency := ''weekly''\<rparr>) =
       calculateCompoundInterest (spec_example\<lparr>incrementalFrequency := ''yearly''\<rparr>)"
  using simulate_other_frequency_is_yearly [of "''weekly''" spec_example]
  by simp


section \<open>Properties of the comparison coordinator\<close>

lemma upt_0_7: "[0..<7] = [0, 1, 2, 3, 4, 5, 6::nat]"
  by (simp add: upt_conv_Cons)

lemma upt_0_2: "[0..<2] = [0, 1::nat]"
  by (simp add: upt_conv_Cons)

lemma chartData_length:
  "length (chartData s) = max (length (results1 s)) (length (results2 s))"
  by (simp add: chartData_def)

lemma chartData_nth:
  assumes "i < max (length (results1 s)) (length (results2 s))"
  shows "chartData s ! i =
           \<lparr>chart_year = real i + 1,
            totalValue1 = or_null (optional_totalValue (results1 s) i),
            totalValue2 = or_null (optional_totalValue (results2 s) i)\<rparr>"
  using assms by (simp add: chartData_def)

lemma chartData_value:
  assumes "i < max (length (results1 s)) (length (results2 s))"
  shows "totalValue1 (chartData s ! i) =
           (if i < length (results1 s) \<and> totalValue (results1 s ! i) \<noteq> 0
            then Some (totalValue (results1 s ! i)) else None)"
  by (simp add: chartData_nth [OF assms] optional_totalValue_def or_null_def)

text \<open>
  Claim C6 at a failing input. A scenario that starts at 0 and adds 0 has the one-entry
  series with total value 0. The merge has the one entry of year 1, as claimed, but
  marks scenario A absent in it although A's series reaches year 1: \<open>0 || null\<close> is
  \<open>null\<close>.
\<close>

theorem chartData_marks_zero_value_absent:
  "results1 (calculateResults (initial_state\<lparr>params1 := zero_example\<rparr>)) =
     [\<lparr>year = 1, totalValue = 0, invested = 0, gained = 0\<rparr>]
   \<and> results2 (calculateResults (initial_state\<lparr>params1 := zero_example\<rparr>)) = []
   \<and> chartData (calculateResults (initial_state\<lparr>params1 := zero_example\<rparr>)) =
       [\<lparr>chart_year = 1, totalValue1 = None, totalValue2 = None\<rparr>]"
proof -
  have sim: "calculateCompoundInterest zero_example =
          [\<lparr>year = 1, totalValue = 0, invested = 0, gained = 0\<rparr>]"
    by (simp add: zero_example_def run_eval double_eval)
  show ?thesis
    by (simp add: calculateResults_def initial_state_def sim chartData_def
        optional_totalValue_def or_null_def)
qed

text \<open>
  Claim C7, as the code has it: removing the comparison sets scenario B's parameters to
  null, empties B's result series and switches comparison off, also after the
  recalculation that follows; the selected point is left as it was.
\<close>

theorem handleRemoveComparison_discards_scenario_B:
  "params2 (handleRemoveComparison s) = None
   \<and> results2 (handleRemoveComparison s) = []
   \<and> isComparing (handleRemoveComparison s) = False
   \<and> selectedPoint (handleRemoveComparison s) = selectedPoint s
   \<and> results2 (calculateResults (handleRemoveComparison s)) = []
   \<and> selectedPoint (calculateResults (handleRemoveComparison s)) = selectedPoint s"
  by (simp add: handleRemoveComparison_def calculateResults_def)

text \<open>
  The selected point is not cleared: after comparing, clicking a point and removing the
  comparison, the clicked point is still selected.
\<close>

theorem handleRemoveComparison_keeps_selectedPoint_counterexample:
  "selectedPoint
     (handleRemoveComparison (handlePointClick (handleCompare initial_state) clicked_point))
     \<noteq> None"
  by (simp add: handleRemoveComparison_def handlePointClick_def handleCompare_def)

text \<open>
  Claim C9: with a valid scenario A (and any scenario B or none), the ticks are the
  numbers \<open>5 * i\<close> for \<open>i\<close> from 0 to \<open>floor (maxYears / 5)\<close>, in this order, where
  \<open>maxYears\<close> is the larger of A's years and B's years or 0. For 30 years they are
  0, 5, 10, 15, 20, 25, 30 and for 7 years 0, 5.
\<close>

theorem getXAxisTicks_multiples_of_five:
  assumes "valid_params (params1 s)"
  shows "getXAxisTicks s = map (\<lambda>i. 5 * real i) [0..<Suc (nat \<lfloor>spec_maxYears s / 5\<rfloor>)]
         \<and> getXAxisTicks initial_state = [0, 5, 10, 15, 20, 25, 30]
         \<and> getXAxisTicks (initial_state\<lparr>params1 := carry_example\<lparr>years := 7\<rparr>\<rparr>) = [0, 5]"
proof (intro conjI)
  have same: "(case params2 s of None \<Rightarrow> 0 | Some p2 \<Rightarrow> if years p2 = 0 then 0 else years p2)
                = (case params2 s of None \<Rightarrow> 0 | Some p2 \<Rightarrow> years p2)"
    by (simp split: option.split)
  have "1 \<le> years (params1 s)"
    using assms by (simp add: valid_params_def)
  then have "0 \<le> spec_maxYears s"
    by (simp add: spec_maxYears_def max_def)
  then have "0 \<le> \<lfloor>spec_maxYears s / 5\<rfloor>"
    by simp
  then have "nat (\<lfloor>spec_maxYears s / 5\<rfloor> + 1) = Suc (nat \<lfloor>spec_maxYears s / 5\<rfloor>)"
    by (simp add: Suc_nat_eq_nat_zadd1)
  then show "getXAxisTicks s =
          map (\<lambda>i. 5 * real i) [0..<Suc (nat \<lfloor>spec_maxYears s / 5\<rfloor>)]"
    by (simp add: getXAxisTicks_def same spec_maxYears_def mult.commute del: upt_Suc)
  show "getXAxisTicks initial_state = [0, 5, 10, 15, 20, 25, 30]"
    by (simp add: getXAxisTicks_def initial_state_def upt_0_7)
  show "getXAxisTicks (initial_state\<lparr>params1 := carry_example\<lparr>years := 7\<rparr>\<rparr>) = [0, 5]"
    by (simp add: getXAxisTicks_def initial_state_def carry_example_def upt_0_2)
qed

theorem getXAxisTicks_multiples_of_five_witness:
  "valid_params (params1 (handleCompare initial_state))
   \<and> getXAxisTicks (handleCompare initial_state) = [0, 5, 10, 15, 20, 25, 30]"
  using getXAxisTicks_multiples_of_five [of "handleCompare initial_state"]
  by (simp add: valid_params_def handleCompare_def initial_state_def spec_maxYears_def
      upt_0_7)

end
